theory Spec2Isabelle
  imports Main
begin

section \<open>The events service of \<^verbatim>\<open>src/server/index.ts\<close>\<close>

text \<open>
  The server is a set of request handlers in front of one collection of documents,
  \<^verbatim>\<open>events\<close>. Each handler reads its request, makes at most two calls to the
  collection and answers with a status and a JSON payload. The theory embeds the four
  handlers that decide anything: the range query, create, update and delete.
\<close>

subsection \<open>Values and documents\<close>

text \<open>
  A value of a request body or of a stored document. \<open>JNum\<close> carries whole numbers: the
  handlers only test a number against zero and hand it on. \<open>JDate\<close> is a date as the
  collection keeps it, a number of milliseconds; \<open>JId\<close> is an \<^verbatim>\<open>ObjectId\<close>.
  \<^verbatim>\<open>undefined\<close> is not a value: a variable that may be undefined is a \<open>jsval option\<close>,
  and \<open>None\<close> is \<^verbatim>\<open>undefined\<close>. A body parsed from JSON holds no \<^verbatim>\<open>undefined\<close>,
  so a property of the body is \<^verbatim>\<open>undefined\<close> exactly when the body does not
  supply it.
\<close>

datatype jsval =
    JNull
  | JBool bool
  | JNum int
  | JStr string
  | JArr "jsval list"
  | JObj "(string \<times> jsval) list"
  | JDate int
  | JId nat

text \<open>
  An object (a request body, an update document, a stored document) maps property names
  to values; reading a property that is not there gives \<^verbatim>\<open>undefined\<close>.
\<close>

type_synonym doc = "string \<rightharpoonup> jsval"

text \<open>JavaScript's truthiness, as \<^verbatim>\<open>!x\<close>, \<^verbatim>\<open>x && y\<close> and \<^verbatim>\<open>x || y\<close> test it.\<close>

fun truthy :: "jsval option \<Rightarrow> bool" where
  "truthy None = False"
| "truthy (Some JNull) = False"
| "truthy (Some (JBool b)) = b"
| "truthy (Some (JNum n)) = (n \<noteq> 0)"
| "truthy (Some (JStr s)) = (s \<noteq> [])"
| "truthy (Some (JArr xs)) = True"
| "truthy (Some (JObj kvs)) = True"
| "truthy (Some (JDate t)) = True"
| "truthy (Some (JId i)) = True"

text \<open>\<^verbatim>\<open>x || ''\<close>: the value itself when it is truthy, the empty string otherwise.\<close>

definition orEmpty :: "jsval option \<Rightarrow> jsval option" where
  "orEmpty x = (if truthy x then x else Some (JStr []))"

text \<open>
  \<^verbatim>\<open>...(c && { k: v })\<close> inside an object literal: the properties of the object when
  \<open>c\<close> is truthy, nothing otherwise (spreading a falsy value adds no property).
\<close>

definition spread :: "bool \<Rightarrow> doc \<Rightarrow> doc" where
  "spread c m = (if c then m else Map.empty)"

subsection \<open>The library functions the handlers call\<close>

text \<open>
  \<^verbatim>\<open>ObjectId.isValid\<close>, \<^verbatim>\<open>new ObjectId(id)\<close> and \<^verbatim>\<open>new Date(x)\<close> belong to the
  driver and to the language, not to the server. The handlers take them as parameters,
  so every theorem holds whatever identifier syntax and date parser are in use.
  \<open>newDate\<close> gives the date as the collection receives it, also for an argument that
  does not parse: the handlers construct the date and never look at it.
\<close>

record runtime =
  isValid :: "string \<Rightarrow> bool"
  newObjectId :: "string \<Rightarrow> nat"
  newDate :: "jsval option \<Rightarrow> int"

subsection \<open>The document store\<close>

text \<open>
  Modelled from the spec: the module \<^verbatim>\<open>./database\<close> and the collection it hands out are
  not among the sources. The spec's contract for the store is \<^verbatim>\<open>find(filter)\<close>,
  \<^verbatim>\<open>findOne(filter)\<close>, \<^verbatim>\<open>insertOne(doc)\<close> returning \<^verbatim>\<open>insertedId\<close>,
  \<^verbatim>\<open>updateOne(filter, update)\<close> returning \<^verbatim>\<open>matchedCount\<close>,
  \<^verbatim>\<open>deleteOne(filter)\<close> returning \<^verbatim>\<open>deletedCount\<close>, with a connect and disconnect
  lifecycle; identifiers are assigned by the store and never reused; a failure of the
  store surfaces as an exception (\<^verbatim>\<open>StoreUnavailable\<close>).

  The store is the list of its documents in their native order, the next identifier
  to assign, whether it is connected, and the calls it has received so far. A call
  to a store that is not connected throws.
\<close>

datatype call = Find | FindOne | InsertOne | UpdateOne | DeleteOne

record store =
  docs :: "doc list"
  nextId :: nat
  connected :: bool
  calls :: "call list"

datatype error = StoreUnavailable

text \<open>
  Modelled from the spec: a filter is a conjunction of conditions on properties. The
  handlers build two filters, \<^verbatim>\<open>{ _id: x }\<close> and
  \<^verbatim>\<open>{ date: { $gte: a, $lte: b } }\<close>. A comparison holds between two dates only.
\<close>

datatype cond = Eq jsval | Gte jsval | Lte jsval

type_synonym query = "(string \<times> cond) list"

fun holds :: "cond \<Rightarrow> jsval option \<Rightarrow> bool" where
  "holds (Eq v) x = (x = Some v)"
| "holds (Gte (JDate a)) (Some (JDate t)) = (a \<le> t)"
| "holds (Lte (JDate b)) (Some (JDate t)) = (t \<le> b)"
| "holds c x = False"

definition matches :: "query \<Rightarrow> doc \<Rightarrow> bool" where
  "matches q d = list_all (\<lambda>(k, c). holds c (d k)) q"

definition received :: "call \<Rightarrow> store \<Rightarrow> store" where
  "received c s = s\<lparr>calls := calls s @ [c]\<rparr>"

text \<open>Modelled from the spec: \<^verbatim>\<open>find(filter).toArray()\<close>.\<close>

definition find_coll :: "query \<Rightarrow> store \<Rightarrow> (error + doc list) \<times> store" where
  "find_coll q s =
     (if connected s then (Inr (filter (matches q) (docs s)), received Find s)
      else (Inl StoreUnavailable, received Find s))"

text \<open>Modelled from the spec: \<^verbatim>\<open>findOne(filter)\<close>, the first match or \<^verbatim>\<open>null\<close>.\<close>

definition findOne :: "query \<Rightarrow> store \<Rightarrow> (error + doc option) \<times> store" where
  "findOne q s =
     (if connected s then (Inr (List.find (matches q) (docs s)), received FindOne s)
      else (Inl StoreUnavailable, received FindOne s))"

text \<open>
  Modelled from the spec: \<^verbatim>\<open>insertOne(doc)\<close>. The store gives the document the next
  identifier as its \<^verbatim>\<open>_id\<close>, appends it and reports the identifier. The result is
  an option because the create handler tests \<^verbatim>\<open>result.insertedId\<close>; this store
  always reports one.
\<close>

definition insertOne :: "doc \<Rightarrow> store \<Rightarrow> (error + nat option) \<times> store" where
  "insertOne d s =
     (if connected s
      then (Inr (Some (nextId s)),
            (received InsertOne s)\<lparr>docs := docs s @ [d(''_id'' \<mapsto> JId (nextId s))],
                                   nextId := Suc (nextId s)\<rparr>)
      else (Inl StoreUnavailable, received InsertOne s))"

text \<open>
  Modelled from the spec: \<^verbatim>\<open>updateOne(filter, { $set: u })\<close>. The first document that
  matches gets every property of \<open>u\<close> written over its own and keeps the rest;
  \<^verbatim>\<open>matchedCount\<close> is 1 when there is such a document and 0 otherwise.
\<close>

fun set_first :: "(doc \<Rightarrow> bool) \<Rightarrow> doc \<Rightarrow> doc list \<Rightarrow> doc list" where
  "set_first P u [] = []"
| "set_first P u (d # ds) = (if P d then (d ++ u) # ds else d # set_first P u ds)"

definition updateOne :: "query \<Rightarrow> doc \<Rightarrow> store \<Rightarrow> (error + nat) \<times> store" where
  "updateOne q u s =
     (if connected s
      then (Inr (if list_ex (matches q) (docs s) then 1 else 0),
            (received UpdateOne s)\<lparr>docs := set_first (matches q) u (docs s)\<rparr>)
      else (Inl StoreUnavailable, received UpdateOne s))"

text \<open>
  Modelled from the spec: \<^verbatim>\<open>deleteOne(filter)\<close>. The first document that matches is
  removed; \<^verbatim>\<open>deletedCount\<close> is 1 when there was one and 0 otherwise.
\<close>

fun remove_first :: "(doc \<Rightarrow> bool) \<Rightarrow> doc list \<Rightarrow> doc list" where
  "remove_first P [] = []"
| "remove_first P (d # ds) = (if P d then ds else d # remove_first P ds)"

definition deleteOne :: "query \<Rightarrow> store \<Rightarrow> (error + nat) \<times> store" where
  "deleteOne q s =
     (if connected s
      then (Inr (if list_ex (matches q) (docs s) then 1 else 0),
            (received DeleteOne s)\<lparr>docs := remove_first (matches q) (docs s)\<rparr>)
      else (Inl StoreUnavailable, received DeleteOne s))"

subsection \<open>Responses\<close>

text \<open>
  A response is its status and its JSON payload: a list of events, one event (or
  \<^verbatim>\<open>null\<close>), \<^verbatim>\<open>{ error }\<close> of an early return, \<^verbatim>\<open>{ error, message }\<close> of a
  \<^verbatim>\<open>catch\<close> block (the exception's own text is left out), or \<^verbatim>\<open>{ message }\<close>.
\<close>

datatype payload =
    Events "doc list"
  | Event "doc option"
  | Error string
  | Failed string
  | Message string

type_synonym response = "nat \<times> payload"

subsection \<open>The handlers\<close>

text \<open>The filter \<^verbatim>\<open>{ _id: x }\<close>.\<close>

definition by_id :: "nat \<Rightarrow> query" where
  "by_id x = [(''_id'', Eq (JId x))]"

text \<open>
  \<^verbatim>\<open>app.get('/api/events/range')\<close>. \<open>start\<close> and \<open>end'\<close> are the two query parameters.
\<close>

definition get_events_range ::
  "runtime \<Rightarrow> jsval option \<Rightarrow> jsval option \<Rightarrow> store \<Rightarrow> response \<times> store" where
  "get_events_range rt start end' s =
     (if \<not> truthy start \<or> \<not> truthy end'
      then ((400, Error ''Start and end dates are required''), s)
      else case find_coll [(''date'', Gte (JDate (newDate rt start))),
                           (''date'', Lte (JDate (newDate rt end')))] s of
             (Inr events, s1) \<Rightarrow> ((200, Events events), s1)
           | (Inl e, s1) \<Rightarrow> ((500, Failed ''Failed to fetch events''), s1))"

text \<open>
  \<^verbatim>\<open>app.post('/api/events')\<close>. The object literal \<^verbatim>\<open>event\<close> calls
  \<^verbatim>\<open>new Date()\<close> twice, for \<^verbatim>\<open>createdAt\<close> and then for \<^verbatim>\<open>updatedAt\<close>:
  \<open>now1\<close> and \<open>now2\<close> are what the clock answers to the first and to the second call.
\<close>

definition event :: "runtime \<Rightarrow> int \<Rightarrow> int \<Rightarrow> doc \<Rightarrow> doc" where
  "event rt now1 now2 body =
     (let title = body ''title''; description = body ''description'';
          date = body ''date''; type = body ''type''; time = body ''time''
      in Map.empty
           (''title'' := title,
            ''description'' := orEmpty description,
            ''date'' \<mapsto> JDate (newDate rt date),
            ''type'' := type,
            ''time'' := orEmpty time,
            ''createdAt'' \<mapsto> JDate now1,
            ''updatedAt'' \<mapsto> JDate now2))"

definition post_events ::
  "runtime \<Rightarrow> int \<Rightarrow> int \<Rightarrow> doc \<Rightarrow> store \<Rightarrow> response \<times> store" where
  "post_events rt now1 now2 body s =
     (let title = body ''title''; date = body ''date''; type = body ''type''
      in if \<not> truthy title \<or> \<not> truthy date \<or> \<not> truthy type
         then ((400, Error ''Missing required fields: title, date, and type are required''), s)
         else
           case insertOne (event rt now1 now2 body) s of
             (Inl e, s1) \<Rightarrow> ((500, Failed ''Failed to create event''), s1)
           | (Inr None, s1) \<Rightarrow> ((500, Failed ''Failed to create event''), s1)
           | (Inr (Some insertedId), s1) \<Rightarrow>
               (case findOne (by_id insertedId) s1 of
                  (Inl e, s2) \<Rightarrow> ((500, Failed ''Failed to create event''), s2)
                | (Inr newEvent, s2) \<Rightarrow> ((201, Event newEvent), s2)))"

text \<open>
  \<^verbatim>\<open>app.put('/api/events/:id')\<close>. \<open>now\<close> is what the clock answers to the one
  \<^verbatim>\<open>new Date()\<close> of the update document.
\<close>

definition updateData :: "runtime \<Rightarrow> int \<Rightarrow> doc \<Rightarrow> doc" where
  "updateData rt now body =
     (let title = body ''title''; description = body ''description'';
          date = body ''date''; type = body ''type''; time = body ''time''
      in spread (truthy title) (Map.empty(''title'' := title))
         ++ spread (description \<noteq> None) (Map.empty(''description'' := description))
         ++ spread (truthy date) [''date'' \<mapsto> JDate (newDate rt date)]
         ++ spread (truthy type) (Map.empty(''type'' := type))
         ++ spread (time \<noteq> None) (Map.empty(''time'' := time))
         ++ [''updatedAt'' \<mapsto> JDate now])"

definition put_event ::
  "runtime \<Rightarrow> int \<Rightarrow> string \<Rightarrow> doc \<Rightarrow> store \<Rightarrow> response \<times> store" where
  "put_event rt now id' body s =
     (if \<not> isValid rt id' then ((400, Error ''Invalid event ID''), s)
      else case updateOne (by_id (newObjectId rt id')) (updateData rt now body) s of
             (Inl e, s1) \<Rightarrow> ((500, Failed ''Failed to update event''), s1)
           | (Inr matchedCount, s1) \<Rightarrow>
               if matchedCount = 0 then ((404, Error ''Event not found''), s1)
               else (case findOne (by_id (newObjectId rt id')) s1 of
                       (Inl e, s2) \<Rightarrow> ((500, Failed ''Failed to update event''), s2)
                     | (Inr updatedEvent, s2) \<Rightarrow> ((200, Event updatedEvent), s2)))"

text \<open>\<^verbatim>\<open>app.delete('/api/events/:id')\<close>.\<close>

definition delete_event :: "runtime \<Rightarrow> string \<Rightarrow> store \<Rightarrow> response \<times> store" where
  "delete_event rt id' s =
     (if \<not> isValid rt id' then ((400, Error ''Invalid event ID''), s)
      else case deleteOne (by_id (newObjectId rt id')) s of
             (Inl e, s1) \<Rightarrow> ((500, Failed ''Failed to delete event''), s1)
           | (Inr deletedCount, s1) \<Rightarrow>
               if deletedCount = 0 then ((404, Error ''Event not found''), s1)
               else ((200, Message ''Event deleted successfully''), s1))"

subsection \<open>Runs of the server\<close>

text \<open>
  A request as the server receives it, together with what the clock answers while the
  request is handled: two readings for a create, one for an update. A run handles its
  requests one after the other.
\<close>

datatype request =
    GetEventsRange "jsval option" "jsval option"
  | PostEvents int int doc
  | PutEvent int string doc
  | DeleteEvent string

fun handle :: "runtime \<Rightarrow> request \<Rightarrow> store \<Rightarrow> response \<times> store" where
  "handle rt (GetEventsRange start end') s = get_events_range rt start end' s"
| "handle rt (PostEvents now1 now2 body) s = post_events rt now1 now2 body s"
| "handle rt (PutEvent now id' body) s = put_event rt now id' body s"
| "handle rt (DeleteEvent id') s = delete_event rt id' s"

fun run :: "runtime \<Rightarrow> request list \<Rightarrow> store \<Rightarrow> store" where
  "run rt [] s = s"
| "run rt (r # rs) s = run rt rs (snd (handle rt r s))"

text \<open>The clock readings of a request, in the order the handler takes them.\<close>

fun readings :: "request \<Rightarrow> int list" where
  "readings (GetEventsRange start end') = []"
| "readings (PostEvents now1 now2 body) = [now1, now2]"
| "readings (PutEvent now id' body) = [now]"
| "readings (DeleteEvent id') = []"

text \<open>
  The store when the server starts to listen: \<^verbatim>\<open>startServer\<close> has connected it and
  nothing has been stored.
\<close>

definition empty_store :: store where
  "empty_store = \<lparr>docs = [], nextId = 0, connected = True, calls = []\<rparr>"

subsection \<open>What the theorems observe\<close>

text \<open>The record that the store holds under an identifier, if any.\<close>

definition stored :: "store \<Rightarrow> nat \<Rightarrow> doc option" where
  "stored s x = List.find (matches (by_id x)) (docs s)"

text \<open>A property of a document read as a date.\<close>

fun as_date :: "jsval option \<Rightarrow> int option" where
  "as_date (Some (JDate t)) = Some t"
| "as_date x = None"

text \<open>
  What the store guarantees about identifiers: those of the stored documents are pairwise
  different, and each was assigned by the store, so the next one to assign is new.
\<close>

fun assigned_below :: "nat \<Rightarrow> jsval option \<Rightarrow> bool" where
  "assigned_below n (Some (JId i)) = (i < n)"
| "assigned_below n x = False"

definition well_formed :: "store \<Rightarrow> bool" where
  "well_formed s =
     (distinct (map (\<lambda>d. d ''_id'') (docs s))
      \<and> list_all (\<lambda>d. assigned_below (nextId s) (d ''_id'')) (docs s))"


text \<open>The five properties that a client can write.\<close>

definition client_fields :: "string list" where
  "client_fields = [''title'', ''description'', ''date'', ''type'', ''time'']"

text \<open>
  Both timestamps of a document are dates, \<^verbatim>\<open>createdAt\<close> is not after
  \<^verbatim>\<open>updatedAt\<close>, and \<^verbatim>\<open>updatedAt\<close> is not after \<open>b\<close>.
\<close>

definition stamped :: "int \<Rightarrow> doc \<Rightarrow> bool" where
  "stamped b d =
     (case (as_date (d ''createdAt''), as_date (d ''updatedAt'')) of
        (Some c, Some u) \<Rightarrow> c \<le> u \<and> u \<le> b
      | _ \<Rightarrow> False)"

definition created_le_updated :: "doc \<Rightarrow> bool" where
  "created_le_updated d =
     (case (as_date (d ''createdAt''), as_date (d ''updatedAt'')) of
        (Some c, Some u) \<Rightarrow> c \<le> u
      | _ \<Rightarrow> False)"

text \<open>The dates of a document lie between two dates, bounds included.\<close>

definition date_within :: "int \<Rightarrow> int \<Rightarrow> doc \<Rightarrow> bool" where
  "date_within lo hi d =
     (case as_date (d ''date'') of Some t \<Rightarrow> lo \<le> t \<and> t \<le> hi | None \<Rightarrow> False)"

subsection \<open>A concrete runtime and concrete requests\<close>

text \<open>
  For the examples: identifiers are 24 hexadecimal digits and denote the number they
  spell, and the date parser knows three days (as milliseconds since 1970).
\<close>

definition hex_digit :: "char \<Rightarrow> nat option" where
  "hex_digit c = map_of (zip ''0123456789abcdef'' [0, 1, 2, 3, 4, 5, 6, 7, 8, 9, 10, 11, 12, 13, 14, 15]) c"

definition demo_isValid :: "string \<Rightarrow> bool" where
  "demo_isValid x = (length x = 24 \<and> list_all (\<lambda>c. hex_digit c \<noteq> None) x)"

definition demo_newObjectId :: "string \<Rightarrow> nat" where
  "demo_newObjectId x = foldl (\<lambda>a c. 16 * a + (case hex_digit c of Some v \<Rightarrow> v | None \<Rightarrow> 0)) 0 x"

definition demo_newDate :: "jsval option \<Rightarrow> int" where
  "demo_newDate x =
     (if x = Some (JStr ''2024-10-30'') then 1730246400000
      else if x = Some (JStr ''2024-10-31'') then 1730332800000
      else if x = Some (JStr ''2024-11-01'') then 1730419200000
      else 0)"

definition demo :: runtime where
  "demo = \<lparr>isValid = demo_isValid, newObjectId = demo_newObjectId, newDate = demo_newDate\<rparr>"

definition ritual :: doc where
  "ritual = [''title'' \<mapsto> JStr ''Ritual'', ''date'' \<mapsto> JStr ''2024-10-31'',
             ''type'' \<mapsto> JStr ''ceremony'']"

definition id0 :: string where
  "id0 = ''000000000000000000000000''"

text \<open>
  The record of \<open>ritual\<close> and the store that holds it, after it was created in an empty
  store with both clock readings 1000.
\<close>

definition ritual_doc :: doc where
  "ritual_doc = [''title'' \<mapsto> JStr ''Ritual'', ''description'' \<mapsto> JStr [],
                 ''date'' \<mapsto> JDate 1730332800000, ''type'' \<mapsto> JStr ''ceremony'',
                 ''time'' \<mapsto> JStr [], ''createdAt'' \<mapsto> JDate 1000,
                 ''updatedAt'' \<mapsto> JDate 1000, ''_id'' \<mapsto> JId 0]"

definition ritual_store :: store where
  "ritual_store =
     \<lparr>docs = [ritual_doc], nextId = 1, connected = True, calls = [InsertOne, FindOne]\<rparr>"


text \<open>The same record when the clock stepped back by a millisecond between the two readings.\<close>

definition backwards_doc :: doc where
  "backwards_doc = [''title'' \<mapsto> JStr ''Ritual'', ''description'' \<mapsto> JStr [],
                    ''date'' \<mapsto> JDate 1730332800000, ''type'' \<mapsto> JStr ''ceremony'',
                    ''time'' \<mapsto> JStr [], ''createdAt'' \<mapsto> JDate 1001,
                    ''updatedAt'' \<mapsto> JDate 1000, ''_id'' \<mapsto> JId 0]"

text \<open>Request bodies of updates: a new time, and an empty description and title.\<close>

definition at_nine :: doc where
  "at_nine = [''time'' \<mapsto> JStr ''21:00'']"


text \<open>A store with one event on each of three consecutive days.\<close>

definition day1 :: doc where
  "day1 = [''title'' \<mapsto> JStr ''Eve'', ''date'' \<mapsto> JDate 1730246400000, ''_id'' \<mapsto> JId 0]"

definition day2 :: doc where
  "day2 = [''title'' \<mapsto> JStr ''Ritual'', ''date'' \<mapsto> JDate 1730332800000, ''_id'' \<mapsto> JId 1]"

definition day3 :: doc where
  "day3 = [''title'' \<mapsto> JStr ''Rest'', ''date'' \<mapsto> JDate 1730419200000, ''_id'' \<mapsto> JId 2]"

definition three_days :: store where
  "three_days = \<lparr>docs = [day1, day2, day3], nextId = 3, connected = True, calls = []\<rparr>"

section \<open>Properties\<close>

subsection \<open>Filters and lookups\<close>

lemma matches_by_id: "matches (by_id x) d = (d ''_id'' = Some (JId x))"
  by (simp add: matches_def by_id_def)

lemma matches_range:
  "matches [(''date'', Gte (JDate lo)), (''date'', Lte (JDate hi))] d = date_within lo hi d"
proof (cases "d ''date''")
  case None
  then show ?thesis by (simp add: matches_def date_within_def)
next
  case (Some v)
  then show ?thesis by (cases v) (simp_all add: matches_def date_within_def)
qed

lemma find_list_ex: "List.find P ds = Some d \<Longrightarrow> list_ex P ds"
  by (induction ds) (auto split: if_splits)

lemma find_None_iff_list_ex: "List.find P ds = None \<longleftrightarrow> \<not> list_ex P ds"
  by (induction ds) auto

lemma find_Some_holds: "List.find P ds = Some d \<Longrightarrow> P d"
  by (induction ds) (auto split: if_splits)

lemma find_append:
  "List.find P (xs @ ys) = (case List.find P xs of None \<Rightarrow> List.find P ys | Some x \<Rightarrow> Some x)"
  by (induction xs) auto

lemma find_set_first:
  "List.find P ds = Some d \<Longrightarrow> P (d ++ u) \<Longrightarrow> List.find P (set_first P u ds) = Some (d ++ u)"
  by (induction ds) (auto split: if_splits)

lemma ids_set_first:
  "u ''_id'' = None \<Longrightarrow> map (\<lambda>d. d ''_id'') (set_first P u ds) = map (\<lambda>d. d ''_id'') ds"
  by (induction ds) (auto simp: map_add_def)

lemma set_remove_first: "set (remove_first P ds) \<subseteq> set ds"
  by (induction ds) auto

lemma distinct_remove_first:
  "distinct (map f ds) \<Longrightarrow> distinct (map f (remove_first P ds))"
proof (induction ds)
  case Nil
  then show ?case by simp
next
  case (Cons d ds)
  with set_remove_first [of P ds] show ?case by auto
qed

text \<open>Where identifiers are pairwise different, removing the first match leaves no match.\<close>

lemma remove_first_no_match:
  assumes "distinct (map (\<lambda>d. d ''_id'') ds)"
  shows "\<not> list_ex (matches (by_id x)) (remove_first (matches (by_id x)) ds)"
  using assms
proof (induction ds)
  case Nil
  then show ?case by simp
next
  case (Cons d ds)
  show ?case
  proof (cases "matches (by_id x) d")
    case True
    with Cons.prems have "\<forall>e \<in> set ds. e ''_id'' \<noteq> Some (JId x)"
      by (force simp: matches_by_id image_iff)
    with True show ?thesis by (simp add: list_ex_iff matches_by_id)
  next
    case False
    with Cons show ?thesis by simp
  qed
qed

subsection \<open>Identifiers of a well-formed store\<close>

lemma assigned_below_neq: "assigned_below n x \<Longrightarrow> x \<noteq> Some (JId n)"
  by (cases "(n, x)" rule: assigned_below.cases) auto

lemma assigned_below_mono: "assigned_below n x \<Longrightarrow> n \<le> m \<Longrightarrow> assigned_below m x"
  by (cases "(n, x)" rule: assigned_below.cases) auto

lemma well_formed_ids:
  "well_formed s \<longleftrightarrow>
     distinct (map (\<lambda>d. d ''_id'') (docs s))
     \<and> (\<forall>x \<in> set (map (\<lambda>d. d ''_id'') (docs s)). assigned_below (nextId s) x)"
  by (auto simp: well_formed_def list_all_iff)

lemma well_formed_fresh:
  assumes "well_formed s"
  shows "List.find (matches (by_id (nextId s))) (docs s) = None"
proof -
  have "\<forall>d \<in> set (docs s). d ''_id'' \<noteq> Some (JId (nextId s))"
    using assms by (auto simp: well_formed_def list_all_iff dest: assigned_below_neq)
  then show ?thesis
    by (simp add: find_None_iff matches_by_id)
qed

subsection \<open>The update document\<close>

lemma spread_apply: "spread c m k = (if c then m k else None)"
  by (simp add: spread_def)

lemma updateData_updatedAt: "updateData rt now body ''updatedAt'' = Some (JDate now)"
  by (simp add: updateData_def Let_def)

lemma updateData_other:
  assumes "k \<noteq> ''updatedAt''" and "k \<notin> set client_fields \<or> body k = None"
  shows "updateData rt now body k = None"
proof -
  have "k = ''title'' \<Longrightarrow> body ''title'' = None"
    and "k = ''description'' \<Longrightarrow> body ''description'' = None"
    and "k = ''date'' \<Longrightarrow> body ''date'' = None"
    and "k = ''type'' \<Longrightarrow> body ''type'' = None"
    and "k = ''time'' \<Longrightarrow> body ''time'' = None"
    using assms(2) by (auto simp: client_fields_def)
  then show ?thesis using assms(1)
    by (simp add: updateData_def Let_def spread_apply)
qed

lemma updateData_id: "updateData rt now body ''_id'' = None"
  by (rule updateData_other) (simp_all add: client_fields_def)






lemma updateData_none:
  assumes "\<forall>k \<in> set client_fields. body k = None"
  shows "updateData rt now body = [''updatedAt'' \<mapsto> JDate now]"
proof
  fix k
  show "updateData rt now body k = [''updatedAt'' \<mapsto> JDate now] k"
  proof (cases "k = ''updatedAt''")
    case True
    then show ?thesis by (simp add: updateData_updatedAt)
  next
    case False
    moreover have "k \<notin> set client_fields \<or> body k = None" using assms by auto
    ultimately show ?thesis by (simp add: updateData_other)
  qed
qed

subsection \<open>What a successful update and a successful create do\<close>

text \<open>
  An update of a record that exists, on a connected store and with a valid identifier:
  the response, the store afterwards, and the record afterwards.
\<close>

lemma put_event_found:
  assumes "isValid rt id'" and "connected s"
    and "stored s (newObjectId rt id') = Some d"
  shows "put_event rt now id' body s =
           ((200, Event (Some (d ++ updateData rt now body))),
            s\<lparr>docs := set_first (matches (by_id (newObjectId rt id')))
                        (updateData rt now body) (docs s),
              calls := calls s @ [UpdateOne, FindOne]\<rparr>)"
    and "stored (snd (put_event rt now id' body s)) (newObjectId rt id')
           = Some (d ++ updateData rt now body)"
proof -
  let ?P = "matches (by_id (newObjectId rt id'))"
  let ?u = "updateData rt now body"
  from assms(3) have f: "List.find ?P (docs s) = Some d" by (simp add: stored_def)
  then have ex: "list_ex ?P (docs s)" by (rule find_list_ex)
  from f have "?P d" by (rule find_Some_holds)
  then have "?P (d ++ ?u)" by (simp add: matches_by_id map_add_def updateData_id)
  with f have g: "List.find ?P (set_first ?P ?u (docs s)) = Some (d ++ ?u)"
    by (rule find_set_first)
  show a: "put_event rt now id' body s =
           ((200, Event (Some (d ++ ?u))),
            s\<lparr>docs := set_first ?P ?u (docs s), calls := calls s @ [UpdateOne, FindOne]\<rparr>)"
    using assms(1,2) ex g by (simp add: put_event_def updateOne_def findOne_def received_def)
  show "stored (snd (put_event rt now id' body s)) (newObjectId rt id') = Some (d ++ ?u)"
    using g by (simp add: a stored_def)
qed

text \<open>A create with the three required properties, on a connected, well-formed store.\<close>

lemma post_events_created:
  assumes "truthy (body ''title'')" and "truthy (body ''date'')" and "truthy (body ''type'')"
    and "connected s" and "well_formed s"
  shows "post_events rt now1 now2 body s =
           ((201, Event (Some ((event rt now1 now2 body)(''_id'' \<mapsto> JId (nextId s))))),
            s\<lparr>docs := docs s @ [(event rt now1 now2 body)(''_id'' \<mapsto> JId (nextId s))],
              nextId := Suc (nextId s),
              calls := calls s @ [InsertOne, FindOne]\<rparr>)"
proof -
  let ?e = "(event rt now1 now2 body)(''_id'' \<mapsto> JId (nextId s))"
  have "List.find (matches (by_id (nextId s))) (docs s @ [?e]) = Some ?e"
    using well_formed_fresh [OF assms(5)] by (simp add: find_append matches_by_id)
  then show ?thesis using assms(1-4)
    by (simp add: post_events_def Let_def insertOne_def findOne_def received_def)
qed

subsection \<open>The documents after each handler\<close>

lemma docs_get_events_range: "docs (snd (get_events_range rt start end' s)) = docs s"
  by (simp add: get_events_range_def find_coll_def received_def)

lemma docs_post_events:
  "docs (snd (post_events rt now1 now2 body s)) = docs s
   \<or> docs (snd (post_events rt now1 now2 body s))
        = docs s @ [(event rt now1 now2 body)(''_id'' \<mapsto> JId (nextId s))]"
  by (simp add: post_events_def Let_def insertOne_def findOne_def received_def)

lemma docs_put_event:
  "docs (snd (put_event rt now id' body s)) = docs s
   \<or> docs (snd (put_event rt now id' body s))
        = set_first (matches (by_id (newObjectId rt id'))) (updateData rt now body) (docs s)"
  by (simp add: put_event_def updateOne_def findOne_def received_def)

lemma docs_delete_event:
  "docs (snd (delete_event rt id' s)) = docs s
   \<or> docs (snd (delete_event rt id' s))
        = remove_first (matches (by_id (newObjectId rt id'))) (docs s)"
  by (simp add: delete_event_def deleteOne_def received_def)

subsection \<open>Every run keeps the store well formed and connected\<close>

lemma well_formed_get_events_range:
  "well_formed s \<Longrightarrow> well_formed (snd (get_events_range rt start end' s))"
  by (simp add: well_formed_def get_events_range_def find_coll_def received_def)

lemma well_formed_post_events:
  assumes "well_formed s"
  shows "well_formed (snd (post_events rt now1 now2 body s))"
proof (cases "truthy (body ''title'') \<and> truthy (body ''date'') \<and> truthy (body ''type'')
    \<and> connected s")
  case True
  have "\<forall>d \<in> set (docs s). d ''_id'' \<noteq> Some (JId (nextId s))"
    using assms by (auto simp: well_formed_def list_all_iff dest: assigned_below_neq)
  moreover have "\<forall>d \<in> set (docs s). assigned_below (Suc (nextId s)) (d ''_id'')"
    using assms by (auto simp: well_formed_def list_all_iff intro: assigned_below_mono)
  ultimately show ?thesis using True assms
    by (auto simp: post_events_created well_formed_def list_all_iff)
next
  case False
  then show ?thesis using assms
    by (auto simp: well_formed_def post_events_def Let_def insertOne_def received_def)
qed

lemma well_formed_put_event:
  assumes "well_formed s"
  shows "well_formed (snd (put_event rt now id' body s))"
proof -
  from docs_put_event [of rt now id' body s]
  have "map (\<lambda>d. d ''_id'') (docs (snd (put_event rt now id' body s)))
          = map (\<lambda>d. d ''_id'') (docs s)"
    by (auto simp: ids_set_first updateData_id)
  moreover have "nextId (snd (put_event rt now id' body s)) = nextId s"
    by (simp add: put_event_def updateOne_def findOne_def received_def)
  ultimately show ?thesis using assms
    by (simp add: well_formed_ids)
qed

lemma well_formed_delete_event:
  assumes "well_formed s"
  shows "well_formed (snd (delete_event rt id' s))"
proof -
  let ?s' = "snd (delete_event rt id' s)"
  have n: "nextId ?s' = nextId s"
    by (simp add: delete_event_def deleteOne_def received_def)
  from docs_delete_event [of rt id' s] assms
  have "distinct (map (\<lambda>d. d ''_id'') (docs ?s'))"
    by (auto simp: well_formed_def distinct_remove_first)
  moreover from docs_delete_event [of rt id' s] assms
    set_remove_first [of "matches (by_id (newObjectId rt id'))" "docs s"]
  have "\<forall>d \<in> set (docs ?s'). assigned_below (nextId s) (d ''_id'')"
    by (auto simp: well_formed_def list_all_iff)
  ultimately show ?thesis
    by (simp add: well_formed_def list_all_iff n)
qed

lemma well_formed_handle: "well_formed s \<Longrightarrow> well_formed (snd (handle rt r s))"
  by (cases r)
    (simp_all add: well_formed_get_events_range well_formed_post_events well_formed_put_event
      well_formed_delete_event)

lemma well_formed_run: "well_formed s \<Longrightarrow> well_formed (run rt rs s)"
  by (induction rs arbitrary: s) (simp_all add: well_formed_handle)

lemma connected_handle: "connected (snd (handle rt r s)) = connected s"
  by (cases r)
    (simp_all add: get_events_range_def find_coll_def post_events_def insertOne_def findOne_def
      put_event_def updateOne_def delete_event_def deleteOne_def received_def Let_def)

lemma connected_run: "connected (run rt rs s) = connected s"
  by (induction rs arbitrary: s) (simp_all add: connected_handle)

lemma empty_store_well_formed: "well_formed empty_store"
  by (simp add: well_formed_def empty_store_def)

text \<open>
  Whatever requests the server has handled since it started, its store is well formed
  and connected: the theorems below that assume both speak of every such store.
\<close>

lemma reachable_store: "well_formed (run rt rs empty_store) \<and> connected (run rt rs empty_store)"
  by (simp add: well_formed_run empty_store_well_formed connected_run) (simp add: empty_store_def)

subsection \<open>Timestamps along a run\<close>

lemma stamped_mono: "stamped b d \<Longrightarrow> b \<le> b' \<Longrightarrow> stamped b' d"
  by (auto simp: stamped_def split: option.splits)

lemma stamped_created_le_updated: "stamped b d \<Longrightarrow> created_le_updated d"
  by (auto simp: stamped_def created_le_updated_def split: option.splits)

lemma stamped_update:
  assumes "stamped b d" and "b \<le> now"
  shows "stamped now (d ++ updateData rt now body)"
proof -
  have "(d ++ updateData rt now body) ''createdAt'' = d ''createdAt''"
    by (simp add: map_add_def updateData_other client_fields_def)
  moreover have "(d ++ updateData rt now body) ''updatedAt'' = Some (JDate now)"
    by (simp add: map_add_def updateData_updatedAt)
  ultimately show ?thesis using assms
    by (auto simp: stamped_def split: option.splits)
qed

lemma stamped_set_first:
  assumes "list_all (stamped b) ds" and "b \<le> now"
  shows "list_all (stamped now) (set_first P (updateData rt now body) ds)"
  using assms
  by (induction ds) (auto intro: stamped_update stamped_mono simp: list_all_iff)

lemma stamped_remove_first:
  "list_all (stamped b) ds \<Longrightarrow> list_all (stamped b) (remove_first P ds)"
  by (induction ds) auto

lemma stamped_event:
  "now1 \<le> now2 \<Longrightarrow> stamped now2 ((event rt now1 now2 body)(''_id'' \<mapsto> JId n))"
  by (simp add: stamped_def event_def Let_def)

lemma stamped_handle:
  assumes "list_all (stamped b) (docs s)" and "sorted (b # readings r)"
  shows "list_all (stamped (last (b # readings r))) (docs (snd (handle rt r s)))"
proof (cases r)
  case (GetEventsRange start end')
  with assms show ?thesis by (simp add: docs_get_events_range)
next
  case (PostEvents now1 now2 body)
  with assms have le: "b \<le> now1" "now1 \<le> now2" "b \<le> now2" by auto
  have old: "list_all (stamped now2) (docs s)"
    using assms(1) le(3) by (auto simp: list_all_iff intro: stamped_mono)
  from docs_post_events [of rt now1 now2 body s] old stamped_event [OF le(2), of rt body "nextId s"]
  show ?thesis using PostEvents by auto
next
  case (PutEvent now id' body)
  with assms have le: "b \<le> now" by simp
  have old: "list_all (stamped now) (docs s)"
    using assms(1) le by (auto simp: list_all_iff intro: stamped_mono)
  from docs_put_event [of rt now id' body s] old
    stamped_set_first [OF assms(1) le, of "matches (by_id (newObjectId rt id'))" rt body]
  show ?thesis using PutEvent by auto
next
  case (DeleteEvent id')
  from docs_delete_event [of rt id' s] assms(1)
    stamped_remove_first [OF assms(1), of "matches (by_id (newObjectId rt id'))"]
  show ?thesis using DeleteEvent by auto
qed

lemma stamped_run:
  assumes "list_all (stamped b) (docs s)" and "sorted (b # concat (map readings rs))"
  shows "\<exists>b'. list_all (stamped b') (docs (run rt rs s))"
  using assms
proof (induction rs arbitrary: b s)
  case Nil
  then show ?case by auto
next
  case (Cons r rs)
  let ?b = "last (b # readings r)"
  from Cons.prems(2) have s1: "sorted (b # readings r)"
    by (simp add: sorted_append)
  have "?b \<in> set (b # readings r)" by (rule last_in_set) simp
  with Cons.prems(2) have s2: "sorted (?b # concat (map readings rs))"
    by (auto simp: sorted_append)
  from stamped_handle [OF Cons.prems(1) s1]
  have "list_all (stamped ?b) (docs (snd (handle rt r s)))" .
  from Cons.IH [OF this s2] show ?case by simp
qed

lemma sorted_hd_Cons: "sorted xs \<Longrightarrow> sorted (hd (xs @ [0 :: int]) # xs)"
  by (cases xs) auto

subsection \<open>The concrete runtime and stores\<close>

lemma demo_valid_id0: "isValid demo id0"
  by (simp add: demo_def demo_isValid_def id0_def hex_digit_def)

lemma demo_oid_id0: "newObjectId demo id0 = 0"
  by (simp add: demo_def demo_newObjectId_def id0_def hex_digit_def)

lemma demo_invalid: "\<not> isValid demo ''not-an-id''"
  by (simp add: demo_def demo_isValid_def)



lemma ritual_created:
  "post_events demo 1000 1000 ritual empty_store = ((201, Event (Some ritual_doc)), ritual_store)"
  by (simp add: post_events_def event_def ritual_def empty_store_def demo_def demo_newDate_def
      insertOne_def findOne_def received_def orEmpty_def matches_by_id ritual_store_def
      ritual_doc_def Let_def)

lemma ritual_store_connected: "connected ritual_store"
  by (simp add: ritual_store_def)

lemma ritual_store_well_formed: "well_formed ritual_store"
  by (simp add: well_formed_def ritual_store_def ritual_doc_def)

lemma ritual_stored: "stored ritual_store (newObjectId demo id0) = Some ritual_doc"
  by (simp add: demo_oid_id0 stored_def ritual_store_def matches_by_id ritual_doc_def)


section \<open>The claims\<close>

subsection \<open>Update\<close>





text \<open>
  C10. An update of a record that exists whose body supplies none of \<^verbatim>\<open>title\<close>,
  \<^verbatim>\<open>description\<close>, \<^verbatim>\<open>date\<close>, \<^verbatim>\<open>type\<close> and \<^verbatim>\<open>time\<close> still answers 200: the
  update document is not empty, it holds exactly the refreshed \<^verbatim>\<open>updatedAt\<close>, and
  the stored record afterwards is the record before with \<^verbatim>\<open>updatedAt\<close> rewritten.
\<close>

theorem put_event_no_fields:
  assumes "isValid rt id'" and "connected s"
    and "stored s (newObjectId rt id') = Some d"
    and "\<forall>k \<in> set client_fields. body k = None"
  shows "updateData rt now body = [''updatedAt'' \<mapsto> JDate now]
         \<and> fst (put_event rt now id' body s) = (200, Event (Some (d(''updatedAt'' \<mapsto> JDate now))))
         \<and> stored (snd (put_event rt now id' body s)) (newObjectId rt id')
             = Some (d(''updatedAt'' \<mapsto> JDate now))"
proof -
  have u: "updateData rt now body = [''updatedAt'' \<mapsto> JDate now]"
    using assms(4) by (rule updateData_none)
  have "d ++ [''updatedAt'' \<mapsto> JDate now] = d(''updatedAt'' \<mapsto> JDate now)"
    by simp
  with u put_event_found [OF assms(1-3), of now body] show ?thesis
    by simp
qed

theorem put_event_no_fields_witness:
  "isValid demo id0 \<and> connected ritual_store
   \<and> stored ritual_store (newObjectId demo id0) = Some ritual_doc
   \<and> list_all (\<lambda>k. Map.empty k = (None :: jsval option)) client_fields
   \<and> updateData demo 2000 Map.empty = [''updatedAt'' \<mapsto> JDate 2000]
   \<and> fst (put_event demo 2000 id0 Map.empty ritual_store)
        = (200, Event (Some (ritual_doc(''updatedAt'' \<mapsto> JDate 2000))))
   \<and> stored (snd (put_event demo 2000 id0 Map.empty ritual_store)) (newObjectId demo id0)
        = Some (ritual_doc(''updatedAt'' \<mapsto> JDate 2000))"
proof -
  have e: "\<forall>k \<in> set client_fields. Map.empty k = (None :: jsval option)" by simp
  from put_event_no_fields [OF demo_valid_id0 ritual_store_connected ritual_stored e, of 2000]
    demo_valid_id0 ritual_store_connected ritual_stored
  show ?thesis by (simp add: list_all_iff)
qed




subsection \<open>Create\<close>




text \<open>
  C5. A create whose body lacks a truthy \<^verbatim>\<open>title\<close>, \<^verbatim>\<open>date\<close> or \<^verbatim>\<open>type\<close> answers
  400 with the message of the missing required fields, and the store afterwards is
  the store before: its documents are the same and it has received no call. This
  holds whether or not the store is connected.
\<close>

theorem post_events_missing_fields:
  assumes "\<not> truthy (body ''title'') \<or> \<not> truthy (body ''date'') \<or> \<not> truthy (body ''type'')"
  shows "post_events rt now1 now2 body s =
           ((400, Error ''Missing required fields: title, date, and type are required''), s)"
  using assms by (auto simp add: post_events_def Let_def)

theorem post_events_missing_fields_witness:
  "\<not> truthy ((ritual(''title'' := None)) ''title'')
   \<and> post_events demo 1000 1000 (ritual(''title'' := None)) ritual_store
        = ((400, Error ''Missing required fields: title, date, and type are required''),
           ritual_store)"
proof -
  have h: "\<not> truthy ((ritual(''title'' := None)) ''title'')" by simp
  then have "\<not> truthy ((ritual(''title'' := None)) ''title'')
             \<or> \<not> truthy ((ritual(''title'' := None)) ''date'')
             \<or> \<not> truthy ((ritual(''title'' := None)) ''type'')" by blast
  from post_events_missing_fields [OF this, of demo 1000 1000 ritual_store] h show ?thesis
    by blast
qed

subsection \<open>Identifiers and delete\<close>

text \<open>
  C6. An update or a delete whose identifier is not valid answers 400 with the
  message of the invalid identifier, and the store afterwards is the store before:
  it has received no call.
\<close>

theorem invalid_id_rejected:
  assumes "\<not> isValid rt id'"
  shows "put_event rt now id' body s = ((400, Error ''Invalid event ID''), s)
         \<and> delete_event rt id' s = ((400, Error ''Invalid event ID''), s)"
  using assms by (simp add: put_event_def delete_event_def)

theorem invalid_id_rejected_witness:
  "\<not> isValid demo ''not-an-id''
   \<and> put_event demo 2000 ''not-an-id'' ritual ritual_store
        = ((400, Error ''Invalid event ID''), ritual_store)
   \<and> delete_event demo ''not-an-id'' ritual_store
        = ((400, Error ''Invalid event ID''), ritual_store)"
  using invalid_id_rejected [OF demo_invalid, of 2000 ritual ritual_store] demo_invalid
  by blast

text \<open>
  C7. Two deletes in a row of the identifier of a record that exists: the first
  answers 200 with the confirmation message, the second answers 404, because no
  record is stored under the identifier after the first.
\<close>

theorem delete_event_twice:
  assumes "isValid rt id'" and "connected s" and "well_formed s"
    and "stored s (newObjectId rt id') = Some d"
  shows "fst (delete_event rt id' s) = (200, Message ''Event deleted successfully'')
         \<and> fst (delete_event rt id' (snd (delete_event rt id' s))) = (404, Error ''Event not found'')
         \<and> stored (snd (delete_event rt id' s)) (newObjectId rt id') = None"
proof -
  let ?P = "matches (by_id (newObjectId rt id'))"
  from assms(4) have ex: "list_ex ?P (docs s)"
    by (simp add: stored_def find_list_ex)
  then have first: "delete_event rt id' s =
      ((200, Message ''Event deleted successfully''),
       s\<lparr>docs := remove_first ?P (docs s), calls := calls s @ [DeleteOne]\<rparr>)"
    using assms(1,2) by (simp add: delete_event_def deleteOne_def received_def)
  have gone: "\<not> list_ex ?P (remove_first ?P (docs s))"
    using assms(3) by (simp add: well_formed_def remove_first_no_match)
  show ?thesis using gone ex assms(1,2)
    by (simp add: first delete_event_def deleteOne_def received_def stored_def
        find_None_iff_list_ex)
qed

theorem delete_event_twice_witness:
  "isValid demo id0 \<and> connected ritual_store \<and> well_formed ritual_store
   \<and> stored ritual_store (newObjectId demo id0) = Some ritual_doc
   \<and> fst (delete_event demo id0 ritual_store) = (200, Message ''Event deleted successfully'')
   \<and> fst (delete_event demo id0 (snd (delete_event demo id0 ritual_store)))
        = (404, Error ''Event not found'')
   \<and> stored (snd (delete_event demo id0 ritual_store)) (newObjectId demo id0) = None"
  using delete_event_twice [OF demo_valid_id0 ritual_store_connected ritual_store_well_formed
      ritual_stored]
    demo_valid_id0 ritual_store_connected ritual_store_well_formed ritual_stored
  by blast

subsection \<open>The range query\<close>

text \<open>
  C4. A range query with both \<^verbatim>\<open>start\<close> and \<^verbatim>\<open>end\<close> present (that is, truthy: the
  handler answers 400 to an empty parameter as to a missing one) answers 200 with
  exactly the stored events, in the store's order, whose \<^verbatim>\<open>date\<close> is a date not
  before the date made from \<^verbatim>\<open>start\<close> and not after the date made from \<^verbatim>\<open>end\<close>.
\<close>

theorem get_events_range_inclusive:
  assumes "truthy start" and "truthy end'" and "connected s"
  shows "get_events_range rt start end' s =
           ((200, Events (filter (date_within (newDate rt start) (newDate rt end')) (docs s))),
            received Find s)"
proof -
  have "matches [(''date'', Gte (JDate (newDate rt start))), (''date'', Lte (JDate (newDate rt end')))]
          = date_within (newDate rt start) (newDate rt end')"
    by (rule ext) (rule matches_range)
  then show ?thesis using assms
    by (simp add: get_events_range_def find_coll_def)
qed

theorem get_events_range_inclusive_witness:
  "truthy (Some (JStr ''2024-10-31'')) \<and> truthy (Some (JStr ''2024-11-01''))
   \<and> connected three_days
   \<and> get_events_range demo (Some (JStr ''2024-10-31'')) (Some (JStr ''2024-11-01'')) three_days
        = ((200, Events [day2, day3]), received Find three_days)"
proof -
  have h: "truthy (Some (JStr ''2024-10-31''))" "truthy (Some (JStr ''2024-11-01''))"
    "connected three_days"
    by (simp_all add: three_days_def)
  have "filter (date_within (newDate demo (Some (JStr ''2024-10-31'')))
                  (newDate demo (Some (JStr ''2024-11-01'')))) (docs three_days)
          = [day2, day3]"
    by (simp add: three_days_def demo_def demo_newDate_def date_within_def day1_def day2_def
        day3_def)
  with get_events_range_inclusive [OF h, of demo] h show ?thesis
    by simp
qed

subsection \<open>The order of the two timestamps\<close>

text \<open>
  C8, as the code has it. Start from the empty store and let the server handle any
  sequence of requests (creates and updates, and deletes and range queries as well)
  during which the clock never runs backwards from one reading to the next. Then every
  stored record has a \<^verbatim>\<open>createdAt\<close> that is not after its \<^verbatim>\<open>updatedAt\<close>. A prefix
  of such a sequence is such a sequence, so this holds at every point of the run.
\<close>

theorem created_le_updated_invariant:
  assumes "sorted (concat (map readings rs))"
  shows "list_all created_le_updated (docs (run rt rs empty_store))"
proof -
  define b where "b = hd (concat (map readings rs) @ [0])"
  have "sorted (b # concat (map readings rs))"
    unfolding b_def using assms by (rule sorted_hd_Cons)
  moreover have "list_all (stamped b) (docs empty_store)"
    by (simp add: empty_store_def)
  ultimately obtain b' where "list_all (stamped b') (docs (run rt rs empty_store))"
    using stamped_run by blast
  then show ?thesis
    by (auto simp: list_all_iff intro: stamped_created_le_updated)
qed

theorem created_le_updated_invariant_witness:
  "sorted (concat (map readings [PostEvents 1000 1001 ritual, PutEvent 2000 id0 at_nine]))
   \<and> list_all created_le_updated
        (docs (run demo [PostEvents 1000 1001 ritual, PutEvent 2000 id0 at_nine] empty_store))"
proof -
  have h: "sorted (concat (map readings [PostEvents 1000 1001 ritual, PutEvent 2000 id0 at_nine]))"
    by simp
  from created_le_updated_invariant [OF h, of demo] h show ?thesis
    by blast
qed

text \<open>
  C8, as the claim has it, fails when the clock steps back, as a wall clock can: the
  handlers write the readings of \<^verbatim>\<open>new Date()\<close> as they come and compare nothing.
  A create whose two readings are 1001 and then 1000 stores a record whose
  \<^verbatim>\<open>createdAt\<close> is after its \<^verbatim>\<open>updatedAt\<close>; and so does an update that reads
  999 of a record created at 1000.
\<close>

theorem created_after_updated:
  "docs (run demo [PostEvents 1001 1000 ritual] empty_store) = [backwards_doc]
   \<and> backwards_doc ''createdAt'' = Some (JDate 1001)
   \<and> backwards_doc ''updatedAt'' = Some (JDate 1000)
   \<and> \<not> list_all created_le_updated (docs (run demo [PostEvents 1001 1000 ritual] empty_store))
   \<and> \<not> list_all created_le_updated
          (docs (run demo [PostEvents 1000 1000 ritual, PutEvent 999 id0 at_nine] empty_store))"
proof -
  have a: "post_events demo 1001 1000 ritual empty_store
             = ((201, Event (Some backwards_doc)),
                \<lparr>docs = [backwards_doc], nextId = 1, connected = True,
                 calls = [InsertOne, FindOne]\<rparr>)"
    by (simp add: post_events_def event_def ritual_def empty_store_def demo_def demo_newDate_def
        insertOne_def findOne_def received_def orEmpty_def matches_by_id backwards_doc_def
        Let_def)
  have b: "\<not> created_le_updated backwards_doc"
    by (simp add: created_le_updated_def backwards_doc_def)
  let ?d = "ritual_doc ++ updateData demo 999 at_nine"
  note upd = put_event_found(1) [OF demo_valid_id0 ritual_store_connected ritual_stored,
      of 999 at_nine]
  have "?d ''createdAt'' = Some (JDate 1000)"
    by (simp add: map_add_def updateData_other client_fields_def) (simp add: ritual_doc_def)
  moreover have "?d ''updatedAt'' = Some (JDate 999)"
    by (simp add: map_add_def updateData_updatedAt)
  ultimately have c: "\<not> created_le_updated ?d"
    by (simp add: created_le_updated_def)
  have "docs (snd (put_event demo 999 id0 at_nine ritual_store)) = [?d]"
    by (simp add: upd) (simp add: ritual_store_def matches_by_id demo_oid_id0 ritual_doc_def)
  with c have "\<not> list_all created_le_updated
      (docs (run demo [PostEvents 1000 1000 ritual, PutEvent 999 id0 at_nine] empty_store))"
    by (simp add: ritual_created)
  with a b show ?thesis
    by (simp add: backwards_doc_def)
qed

end
